theory Spec2Isabelle
  imports Complex_Main
begin

section \<open>Graphical analysis of time-activity curves (pet_cli/graphical_analysis.py)\<close>

text \<open>
  The module works on one-dimensional numpy arrays of double-precision numbers. The
  embedding reads the sampled values (times, input TAC, region TAC, threshold) as exact
  real numbers: no rounding, no overflow, and no NaN or infinity among the inputs (the
  threshold index, whose comparisons NaN changes, has a second model that admits NaN). A
  division of two arrays is the only place where the module itself creates a non-finite
  number (a zero denominator), so the arrays that come out of a division carry elements
  of type \<open>fval\<close>, whose value \<open>NonFinite\<close> stands for numpy's inf and nan.

  Exceptions are values: every function that can raise returns \<open>error + 'a\<close>, with
  \<open>Inl\<close> the exception.
\<close>

subsection \<open>Errors, array elements, numpy primitives\<close>

datatype error = ValueError string | IndexError

datatype fval = Finite real | NonFinite

definition bind :: "error + 'a \<Rightarrow> ('a \<Rightarrow> error + 'b) \<Rightarrow> error + 'b" where
  "bind r f = (case r of Inl e \<Rightarrow> Inl e | Inr v \<Rightarrow> f v)"

text \<open>
  An elementwise binary operation of numpy on two one-dimensional arrays: equal lengths
  combine position by position, an array of length one is broadcast against the other,
  and any other pair of lengths raises ValueError.
\<close>

definition broadcast2 :: "('a \<Rightarrow> 'b \<Rightarrow> 'c) \<Rightarrow> 'a list \<Rightarrow> 'b list \<Rightarrow> error + 'c list" where
  "broadcast2 f xs ys =
     (if length xs = length ys then Inr (map2 f xs ys)
      else if length xs = 1 then Inr (map (f (hd xs)) ys)
      else if length ys = 1 then Inr (map (\<lambda>x. f x (hd ys)) xs)
      else Inl (ValueError ''operands could not be broadcast together''))"

text \<open>\<^verbatim>\<open>a / b\<close> on two numbers of an array: a zero denominator gives inf or nan.\<close>

definition fdiv :: "real \<Rightarrow> real \<Rightarrow> fval" where
  "fdiv a b = (if b = 0 then NonFinite else Finite (a / b))"

definition np_divide :: "real list \<Rightarrow> real list \<Rightarrow> error + fval list" where
  "np_divide xs ys = broadcast2 fdiv xs ys"

text \<open>\<^verbatim>\<open>np.diff(a)\<close> is \<^verbatim>\<open>a[1:] - a[:-1]\<close>.\<close>

definition np_diff :: "real list \<Rightarrow> real list" where
  "np_diff xs = map2 (\<lambda>b a. b - a) (tl xs) (butlast xs)"

fun cumsum_from :: "real \<Rightarrow> real list \<Rightarrow> real list" where
  "cumsum_from s [] = []"
| "cumsum_from s (x # xs) = (s + x) # cumsum_from (s + x) xs"

definition np_cumsum :: "real list \<Rightarrow> real list" where
  "np_cumsum xs = cumsum_from 0 xs"

text \<open>
  The slice assignment \<^verbatim>\<open>target[k:] = v\<close>: \<open>v\<close> has the length of the slice, or
  length one (broadcast), or the assignment raises ValueError.
\<close>

definition assign_from :: "nat \<Rightarrow> real list \<Rightarrow> real list \<Rightarrow> error + real list" where
  "assign_from k target v =
     (let m = length target - k in
      if length v = m then Inr (take k target @ v)
      else if length v = 1 then Inr (take k target @ replicate m (hd v))
      else Inl (ValueError ''could not broadcast input array''))"

text \<open>
  The slice \<^verbatim>\<open>a[k:]\<close> of Python: a negative start counts from the end, and a start
  outside the array is clipped.
\<close>

definition slice_from :: "int \<Rightarrow> 'a list \<Rightarrow> 'a list" where
  "slice_from k xs =
     (let n = int (length xs);
          start = (if k < 0 then max (n + k) 0 else min k n)
      in drop (nat start) xs)"

text \<open>\<^verbatim>\<open>np.max\<close> raises ValueError on an array of size zero.\<close>

fun np_max :: "real list \<Rightarrow> error + real" where
  "np_max [] = Inl (ValueError ''zero-size array to reduction operation maximum which has no identity'')"
| "np_max (x # xs) = Inr (fold max xs x)"

text \<open>\<^verbatim>\<open>np.argwhere(cond)\<close> on a one-dimensional array: the indices where it holds, ascending.\<close>

definition argwhere :: "('a \<Rightarrow> bool) \<Rightarrow> 'a list \<Rightarrow> nat list" where
  "argwhere p xs = filter (\<lambda>i. p (xs ! i)) [0 ..< length xs]"

subsection \<open>Line fitting\<close>

text \<open>
  \<^verbatim>\<open>np.linalg.lstsq(matrix, ydata)[0]\<close> is a library routine outside the module. The
  functions that call it take it as the parameter \<open>lstsq\<close>: from a matrix (a list of
  rows) and a right-hand side to the solution vector, or the exception it raises.
\<close>

type_synonym solver = "fval list list \<Rightarrow> fval list \<Rightarrow> error + fval list"

definition line_fitting_make_rhs_matrix_from_xdata :: "fval list \<Rightarrow> fval list list" where
  "line_fitting_make_rhs_matrix_from_xdata xdata =
     (let out_matrix = replicate (length xdata) [Finite 1, Finite 1]
      in map2 (\<lambda>row x. row[0 := x]) out_matrix xdata)"

definition fit_line_to_data_using_lls :: "solver \<Rightarrow> fval list \<Rightarrow> fval list \<Rightarrow> error + fval list" where
  "fit_line_to_data_using_lls lstsq xdata ydata =
     (let matrix = line_fitting_make_rhs_matrix_from_xdata xdata
      in lstsq matrix ydata)"

subsection \<open>Cumulative trapezoidal integral\<close>

text \<open>
  The store \<^verbatim>\<open>cum_int[0] = initial\<close> is out of range on an array of length zero:
  the IndexError of Python. The default of \<open>initial\<close> is \<open>0.0\<close>; callers that
  leave it out pass \<open>0\<close> here.
\<close>

definition cumulative_trapezoidal_integral :: "real list \<Rightarrow> real list \<Rightarrow> real \<Rightarrow> error + real list" where
  "cumulative_trapezoidal_integral xdata ydata initial =
     (let dx = np_diff xdata;
          cum_int = replicate (length xdata) 0
      in if cum_int = [] then Inl IndexError
         else
           let cum_int = cum_int[0 := initial] in
           bind (broadcast2 (\<lambda>a b. a + b) (tl ydata) (butlast ydata)) (\<lambda>ysum.
           bind (broadcast2 (\<lambda>a b. a * b) dx ysum) (\<lambda>prods.
           assign_from 1 cum_int (np_cumsum (map (\<lambda>v. v / 2) prods)))))"

definition calculate_patlak_x :: "real list \<Rightarrow> real list \<Rightarrow> error + fval list" where
  "calculate_patlak_x tac_times tac_vals =
     bind (cumulative_trapezoidal_integral tac_times tac_vals 0) (\<lambda>cumulative_integral.
     np_divide cumulative_integral tac_vals)"

subsection \<open>Threshold index\<close>

definition get_index_from_threshold :: "real list \<Rightarrow> real \<Rightarrow> error + int" where
  "get_index_from_threshold times_in_minutes t_thresh_in_minutes =
     bind (np_max times_in_minutes) (\<lambda>mx.
       if t_thresh_in_minutes > mx then Inr (- 1)
       else (case argwhere (\<lambda>x. x \<ge> t_thresh_in_minutes) times_in_minutes of
               [] \<Rightarrow> Inl IndexError
             | i # _ \<Rightarrow> Inr (int i)))"

text \<open>
  The definition above reads the times and the threshold as real numbers. A float64 can
  also be NaN, and every comparison with NaN is false. The second model of the same
  function keeps that case: a value is \<open>Val v\<close> or \<open>NaN\<close>, where the values \<open>v\<close>
  are taken from any linear order (the finite doubles and the two infinities are one),
  \<^verbatim>\<open>np.max\<close> returns NaN as soon as one element is NaN, and the read of
  \<^verbatim>\<open>np.argwhere(...)[0, 0]\<close> on an empty result is the IndexError of numpy (code
  compiled without bounds checks reads an arbitrary value there).
\<close>

datatype 'a fl = Val 'a | NaN

fun fl_gt :: "'a::linorder fl \<Rightarrow> 'a fl \<Rightarrow> bool" where
  "fl_gt (Val a) (Val b) = (a > b)"
| "fl_gt _ _ = False"

fun fl_ge :: "'a::linorder fl \<Rightarrow> 'a fl \<Rightarrow> bool" where
  "fl_ge (Val a) (Val b) = (a \<ge> b)"
| "fl_ge _ _ = False"

fun fl_maximum :: "'a::linorder fl \<Rightarrow> 'a fl \<Rightarrow> 'a fl" where
  "fl_maximum (Val a) (Val b) = Val (max a b)"
| "fl_maximum _ _ = NaN"

fun np_max_fl :: "'a::linorder fl list \<Rightarrow> error + 'a fl" where
  "np_max_fl [] = Inl (ValueError ''zero-size array to reduction operation maximum which has no identity'')"
| "np_max_fl (x # xs) = Inr (fold fl_maximum xs x)"

definition get_index_from_threshold_fl :: "'a::linorder fl list \<Rightarrow> 'a fl \<Rightarrow> error + int" where
  "get_index_from_threshold_fl times_in_minutes t_thresh_in_minutes =
     bind (np_max_fl times_in_minutes) (\<lambda>mx.
       if fl_gt t_thresh_in_minutes mx then Inr (- 1)
       else (case argwhere (\<lambda>x. fl_ge x t_thresh_in_minutes) times_in_minutes of
               [] \<Rightarrow> Inl IndexError
             | i # _ \<Rightarrow> Inr (int i)))"

subsection \<open>The three analyses and the dispatcher\<close>

type_synonym analysis = "real list \<Rightarrow> real list \<Rightarrow> real list \<Rightarrow> real \<Rightarrow> error + fval list"

definition patlak_analysis :: "solver \<Rightarrow> analysis" where
  "patlak_analysis lstsq input_tac_values region_tac_values tac_times_in_minutes t_thresh_in_minutes =
     bind (get_index_from_threshold tac_times_in_minutes t_thresh_in_minutes) (\<lambda>t_thresh.
     bind (calculate_patlak_x tac_times_in_minutes input_tac_values) (\<lambda>patlak_x.
     bind (np_divide region_tac_values input_tac_values) (\<lambda>patlak_y.
     fit_line_to_data_using_lls lstsq (slice_from t_thresh patlak_x) (slice_from t_thresh patlak_y))))"

definition logan_analysis :: "solver \<Rightarrow> analysis" where
  "logan_analysis lstsq input_tac_values region_tac_values tac_times_in_minutes t_thresh_in_minutes =
     bind (get_index_from_threshold tac_times_in_minutes t_thresh_in_minutes) (\<lambda>t_thresh.
     bind (cumulative_trapezoidal_integral tac_times_in_minutes input_tac_values 0) (\<lambda>ci.
     bind (np_divide ci region_tac_values) (\<lambda>logan_x.
     bind (cumulative_trapezoidal_integral tac_times_in_minutes region_tac_values 0) (\<lambda>cr.
     bind (np_divide cr region_tac_values) (\<lambda>logan_y.
     fit_line_to_data_using_lls lstsq (slice_from t_thresh logan_x) (slice_from t_thresh logan_y))))))"

definition alternative_logan_analysis :: "solver \<Rightarrow> analysis" where
  "alternative_logan_analysis lstsq input_tac_values region_tac_values tac_times_in_minutes t_thresh_in_minutes =
     bind (get_index_from_threshold tac_times_in_minutes t_thresh_in_minutes) (\<lambda>t_thresh.
     bind (cumulative_trapezoidal_integral tac_times_in_minutes input_tac_values 0) (\<lambda>ci.
     bind (np_divide ci region_tac_values) (\<lambda>alt_logan_x.
     bind (cumulative_trapezoidal_integral tac_times_in_minutes region_tac_values 0) (\<lambda>cr.
     bind (np_divide cr input_tac_values) (\<lambda>alt_logan_y.
     fit_line_to_data_using_lls lstsq (slice_from t_thresh alt_logan_x) (slice_from t_thresh alt_logan_y))))))"

definition get_graphical_analysis_method :: "solver \<Rightarrow> string \<Rightarrow> error + analysis" where
  "get_graphical_analysis_method lstsq method_name =
     (if method_name = ''patlak'' then Inr (patlak_analysis lstsq)
      else if method_name = ''logan'' then Inr (logan_analysis lstsq)
      else if method_name = ''alt_logan'' then Inr (alternative_logan_analysis lstsq)
      else Inl (ValueError
        (''Invalid method_name! Must be either 'patlak', 'logan', or 'alt_logan'. Got '' @ method_name)))"

subsection \<open>Trapezoid areas and least squares\<close>

text \<open>The area the specification gives for the step from index \<open>i - 1\<close> to index \<open>i\<close>.\<close>

definition trapezoid_area :: "real list \<Rightarrow> real list \<Rightarrow> nat \<Rightarrow> real" where
  "trapezoid_area tac_times vals i =
     (tac_times ! i - tac_times ! (i - 1)) * (vals ! i + vals ! (i - 1)) / 2"

text \<open>The sum of the squared residuals of the line \<open>y = m * x + b\<close> on the data.\<close>

definition sq_residual :: "real \<Rightarrow> real \<Rightarrow> real list \<Rightarrow> real list \<Rightarrow> real" where
  "sq_residual m b xs ys = sum_list (map2 (\<lambda>x y. (y - (m * x + b))\<^sup>2) xs ys)"

text \<open>
  What the module relies on from \<^verbatim>\<open>np.linalg.lstsq\<close>, in exact arithmetic: on a system
  whose matrix has the rows \<open>[x, 1]\<close> and at least one row, it returns a vector
  \<open>[m, b]\<close> that minimises the sum of the squared residuals.
\<close>

definition lstsq_contract :: "solver \<Rightarrow> bool" where
  "lstsq_contract lstsq =
     (\<forall>xs ys. length xs = length ys \<and> xs \<noteq> [] \<longrightarrow>
        (\<exists>m b. lstsq (map (\<lambda>x. [Finite x, Finite 1]) xs) (map Finite ys) = Inr [Finite m, Finite b]
               \<and> (\<forall>m' b'. sq_residual m b xs ys \<le> sq_residual m' b' xs ys)))"


text \<open>
  A solver in exact arithmetic that meets the contract, so that the contract is not an
  empty assumption. As \<^verbatim>\<open>np.linalg.lstsq\<close> does, it returns the solution of the normal
  equations, and the one of least norm when all \<open>x\<close> coincide (rank one).
\<close>

fun reals_of :: "fval list \<Rightarrow> real list option" where
  "reals_of [] = Some []"
| "reals_of (Finite r # vs) = map_option ((#) r) (reals_of vs)"
| "reals_of (NonFinite # vs) = None"

definition line_solution :: "real list \<Rightarrow> real list \<Rightarrow> real \<times> real" where
  "line_solution xs ys =
     (let n = real (length xs);
          sx = sum_list xs;
          sy = sum_list ys;
          sxx = sum_list (map (\<lambda>x. x * x) xs);
          sxy = sum_list (map2 (\<lambda>x y. x * y) xs ys);
          d = n * sxx - sx * sx
      in if d \<noteq> 0 then ((n * sxy - sx * sy) / d, (sxx * sy - sx * sxy) / d)
         else let c = sx / n; ybar = sy / n
              in (c * ybar / (c * c + 1), ybar / (c * c + 1)))"

definition lstsq_exact :: solver where
  "lstsq_exact a y =
     (if list_all (\<lambda>row. length row = 2 \<and> row ! 1 = Finite 1) a \<and> length a = length y
      then (case (reals_of (map hd a), reals_of y) of
              (Some xs, Some ys) \<Rightarrow>
                (case line_solution xs ys of (m, b) \<Rightarrow> Inr [Finite m, Finite b])
            | _ \<Rightarrow> Inr [NonFinite, NonFinite])
      else Inl (ValueError ''not a line-fitting system''))"

subsection \<open>The integrator: basic facts\<close>

lemma length_cumsum_from: "length (cumsum_from s xs) = length xs"
  by (induction xs arbitrary: s) auto

lemma bind_Inr: "bind (Inr v) f = f v"
  by (simp add: bind_def)

lemma bind_Inl: "bind (Inl e) f = Inl e"
  by (simp add: bind_def)

lemma broadcast2_same_length: "length xs = length ys \<Longrightarrow> broadcast2 f xs ys = Inr (map2 f xs ys)"
  by (simp add: broadcast2_def)

lemma cumsum_from_nth:
  "j < length zs \<Longrightarrow> cumsum_from s zs ! j = s + sum_list (take (Suc j) zs)"
proof (induction zs arbitrary: s j)
  case Nil
  then show ?case by simp
next
  case (Cons z zs)
  then show ?case by (cases j) (simp_all add: add.assoc)
qed

lemma half_products_eq_areas:
  assumes "length xs = length ys"
  shows "map (\<lambda>v. v / 2)
           (map2 (\<lambda>a b. a * b) (np_diff xs) (map2 (\<lambda>a b. a + b) (tl ys) (butlast ys)))
         = map (\<lambda>k. trapezoid_area xs ys (Suc k)) [0 ..< length xs - 1]"
  using assms
  by (intro nth_equalityI) (simp_all add: np_diff_def trapezoid_area_def nth_tl nth_butlast)

lemma cumulative_trapezoidal_integral_eq:
  assumes "length xs = length ys" and "xs \<noteq> []"
  shows "cumulative_trapezoidal_integral xs ys a
         = Inr (a # np_cumsum (map (\<lambda>k. trapezoid_area xs ys (Suc k)) [0 ..< length xs - 1]))"
proof -
  let ?ysum = "map2 (\<lambda>a b. a + b) (tl ys) (butlast ys)"
  let ?prods = "map2 (\<lambda>a b. a * b) (np_diff xs) ?ysum"
  let ?q = "map (\<lambda>k. trapezoid_area xs ys (Suc k)) [0 ..< length xs - 1]"
  have s1: "broadcast2 (\<lambda>a b. a + b) (tl ys) (butlast ys) = Inr ?ysum"
    by (simp add: broadcast2_def)
  have s2: "broadcast2 (\<lambda>a b. a * b) (np_diff xs) ?ysum = Inr ?prods"
    using assms(1) by (simp add: broadcast2_def np_diff_def)
  have s3: "map (\<lambda>v. v / 2) ?prods = ?q"
    by (rule half_products_eq_areas[OF assms(1)])
  have s4: "assign_from 1 ((replicate (length xs) 0)[0 := a]) (np_cumsum ?q) = Inr (a # np_cumsum ?q)"
    using assms(2) by (cases xs) (simp_all add: assign_from_def np_cumsum_def length_cumsum_from)
  have r: "(replicate (length xs) (0::real) = []) = False"
    using assms(2) by simp
  show ?thesis
    unfolding cumulative_trapezoidal_integral_def Let_def
    by (simp only: r if_False s1 s2 s3 s4 bind_Inr)
qed

lemma sum_list_take_areas:
  "i \<le> n \<Longrightarrow> sum_list (take i (map f [0 ..< n])) = (\<Sum>k = 1..i. f (k - 1))"
proof (induction i)
  case 0
  then show ?case by simp
next
  case (Suc i)
  then have "take (Suc i) (map f [0 ..< n]) = take i (map f [0 ..< n]) @ [f i]"
    by (simp add: take_Suc_conv_app_nth)
  with Suc show ?case by simp
qed

lemma cumulative_trapezoidal_integral_nth:
  assumes "length xs = length ys" and "xs \<noteq> []"
  shows "\<exists>r. cumulative_trapezoidal_integral xs ys a = Inr r \<and> length r = length xs \<and> r ! 0 = a
          \<and> (\<forall>i. 1 \<le> i \<and> i < length xs \<longrightarrow> r ! i = (\<Sum>k = 1..i. trapezoid_area xs ys k))"
proof -
  let ?q = "map (\<lambda>k. trapezoid_area xs ys (Suc k)) [0 ..< length xs - 1]"
  let ?r = "a # np_cumsum ?q"
  have "\<And>i. 1 \<le> i \<Longrightarrow> i < length xs \<Longrightarrow> ?r ! i = (\<Sum>k = 1..i. trapezoid_area xs ys k)"
  proof -
    fix i assume i: "1 \<le> i" "i < length xs"
    then obtain j where j: "i = Suc j" by (cases i) auto
    with i have jl: "j < length ?q" by simp
    have "?r ! i = np_cumsum ?q ! j" using j by simp
    also have "\<dots> = sum_list (take (Suc j) ?q)"
      using cumsum_from_nth[OF jl, of 0] by (simp add: np_cumsum_def)
    also have "\<dots> = (\<Sum>k = 1..Suc j. trapezoid_area xs ys (Suc (k - 1)))"
      using i j by (intro sum_list_take_areas) simp
    also have "\<dots> = (\<Sum>k = 1..i. trapezoid_area xs ys k)"
      using j by (intro sum.cong) auto
    finally show "?r ! i = (\<Sum>k = 1..i. trapezoid_area xs ys k)" .
  qed
  moreover have "length ?r = length xs"
    using assms by (cases xs) (simp_all add: np_cumsum_def length_cumsum_from)
  ultimately show ?thesis
    using cumulative_trapezoidal_integral_eq[OF assms, of a] by simp
qed

text \<open>
  Claim C8. On the two-point input \<open>times = [0, 1]\<close>, \<open>values = [2, 4]\<close> with
  \<open>initial = 0\<close> the integrator returns exactly \<open>[0, 3]\<close>; the second entry is
  the trapezoid area \<open>(1 - 0) * (2 + 4) / 2\<close>.
\<close>

theorem cumulative_trapezoidal_integral_two_points:
  "cumulative_trapezoidal_integral [0, 1] [2, 4] 0 = Inr [0, 3]
   \<and> trapezoid_area [0, 1] [2, 4] 1 = 3"
  by (simp add: cumulative_trapezoidal_integral_def np_diff_def broadcast2_def bind_def
      assign_from_def np_cumsum_def trapezoid_area_def)

text \<open>
  Claim C2, as stated: position \<open>i\<close> equals position \<open>i - 1\<close> plus the trapezoid area for
  every \<open>i \<ge> 1\<close>. With \<open>initial = 5\<close> on the two-point input the result is
  \<open>[5, 3]\<close>: position 1 is the area alone, not \<open>5 + 3\<close>.
\<close>

theorem cumulative_trapezoidal_integral_initial_counterexample:
  "cumulative_trapezoidal_integral [0, 1] [2, 4] 5 = Inr [5, 3]
   \<and> [5, 3 :: real] ! 1 \<noteq> [5, 3] ! 0 + trapezoid_area [0, 1] [2, 4] 1"
  by (simp add: cumulative_trapezoidal_integral_def np_diff_def broadcast2_def bind_def
      assign_from_def np_cumsum_def trapezoid_area_def)

text \<open>
  Claim C2, amended. For equal-length sequences of length \<open>n \<ge> 1\<close> the integrator
  returns a sequence of length \<open>n\<close>; position 0 is \<open>initial\<close>; position 1 (when
  \<open>n \<ge> 2\<close>) is the trapezoid area between the indices 0 and 1, with \<open>initial\<close> not
  added; position \<open>i\<close>, for every \<open>i \<ge> 2\<close>, is position \<open>i - 1\<close> plus the trapezoid
  area between \<open>i - 1\<close> and \<open>i\<close>. So the recurrence of the claim holds from position 1
  on when \<open>initial = 0\<close>, the default.
\<close>

theorem cumulative_trapezoidal_integral_recurrence:
  assumes "length tms = length vals" and "tms \<noteq> []"
  shows "\<exists>r. cumulative_trapezoidal_integral tms vals initial = Inr r
          \<and> length r = length tms
          \<and> r ! 0 = initial
          \<and> (1 < length tms \<longrightarrow> r ! 1 = trapezoid_area tms vals 1)
          \<and> (\<forall>i. 2 \<le> i \<and> i < length tms \<longrightarrow> r ! i = r ! (i - 1) + trapezoid_area tms vals i)
          \<and> (initial = 0 \<longrightarrow>
               (\<forall>i. 1 \<le> i \<and> i < length tms \<longrightarrow> r ! i = r ! (i - 1) + trapezoid_area tms vals i))"
proof -
  from cumulative_trapezoidal_integral_nth[OF assms, of initial]
  obtain r where r: "cumulative_trapezoidal_integral tms vals initial = Inr r"
    and len: "length r = length tms" and r0: "r ! 0 = initial"
    and nth: "\<And>i. 1 \<le> i \<Longrightarrow> i < length tms \<Longrightarrow> r ! i = (\<Sum>k = 1..i. trapezoid_area tms vals k)"
    by blast
  have one: "1 < length tms \<Longrightarrow> r ! 1 = trapezoid_area tms vals 1"
    using nth[of 1] by simp
  have step: "r ! i = r ! (i - 1) + trapezoid_area tms vals i" if "2 \<le> i" "i < length tms" for i
  proof -
    from that obtain j where j: "i = Suc j" "1 \<le> j" by (cases i) auto
    have "r ! i = (\<Sum>k = 1..Suc j. trapezoid_area tms vals k)"
      using nth[of i] that j by simp
    also have "\<dots> = (\<Sum>k = 1..j. trapezoid_area tms vals k) + trapezoid_area tms vals (Suc j)"
      by simp
    also have "(\<Sum>k = 1..j. trapezoid_area tms vals k) = r ! j"
      using nth[of j] that j by simp
    finally show ?thesis using j by simp
  qed
  have zero: "r ! i = r ! (i - 1) + trapezoid_area tms vals i"
    if "initial = 0" "1 \<le> i" "i < length tms" for i
  proof (cases "i = 1")
    case True
    then show ?thesis using one that r0 by simp
  next
    case False
    then show ?thesis using step[of i] that by simp
  qed
  show ?thesis
    using r len r0 one step zero by blast
qed

theorem cumulative_trapezoidal_integral_recurrence_witness:
  "\<exists>r. cumulative_trapezoidal_integral [0, 1, 3] [2, 4, 5] 5 = Inr r
     \<and> length r = 3 \<and> r ! 0 = 5 \<and> r ! 1 = 3 \<and> r ! 2 = r ! 1 + 9"
proof -
  have h: "length [0, 1, 3 :: real] = length [2, 4, 5 :: real]" "[0, 1, 3 :: real] \<noteq> []"
    by simp_all
  from cumulative_trapezoidal_integral_recurrence[OF h, of 5]
  obtain r where r: "cumulative_trapezoidal_integral [0, 1, 3] [2, 4, 5] 5 = Inr r"
    and "length r = 3" and "r ! 0 = 5"
    and "r ! 1 = trapezoid_area [0, 1, 3] [2, 4, 5] 1"
    and "r ! 2 = r ! (2 - 1) + trapezoid_area [0, 1, 3] [2, 4, 5] 2"
    by auto
  then show ?thesis
    by (simp add: trapezoid_area_def)
qed

text \<open>
  Claim C9. For equal-length sequences of length \<open>n \<ge> 2\<close> and any two values \<open>a\<close>,
  \<open>b\<close> of \<open>initial\<close>, the two results agree at every position \<open>i \<ge> 1\<close>: the
  argument decides position 0 only, and position \<open>i \<ge> 1\<close> is the plain sum of the
  first \<open>i\<close> trapezoid areas, with no offset.
\<close>

theorem cumulative_trapezoidal_integral_initial_only_at_0:
  assumes "length tms = length vals" and "2 \<le> length tms"
  shows "\<exists>ra rb. cumulative_trapezoidal_integral tms vals a = Inr ra
          \<and> cumulative_trapezoidal_integral tms vals b = Inr rb
          \<and> length ra = length tms \<and> length rb = length tms
          \<and> ra ! 0 = a \<and> rb ! 0 = b
          \<and> (\<forall>i. 1 \<le> i \<and> i < length tms \<longrightarrow>
                ra ! i = rb ! i \<and> ra ! i = (\<Sum>k = 1..i. trapezoid_area tms vals k))"
proof -
  from assms(2) have ne: "tms \<noteq> []" by auto
  from cumulative_trapezoidal_integral_nth[OF assms(1) ne, of a]
  obtain ra where ra: "cumulative_trapezoidal_integral tms vals a = Inr ra"
    "length ra = length tms" "ra ! 0 = a"
    "\<forall>i. 1 \<le> i \<and> i < length tms \<longrightarrow> ra ! i = (\<Sum>k = 1..i. trapezoid_area tms vals k)"
    by blast
  from cumulative_trapezoidal_integral_nth[OF assms(1) ne, of b]
  obtain rb where rb: "cumulative_trapezoidal_integral tms vals b = Inr rb"
    "length rb = length tms" "rb ! 0 = b"
    "\<forall>i. 1 \<le> i \<and> i < length tms \<longrightarrow> rb ! i = (\<Sum>k = 1..i. trapezoid_area tms vals k)"
    by blast
  show ?thesis
    using ra rb by (intro exI[of _ ra] exI[of _ rb]) simp
qed

theorem cumulative_trapezoidal_integral_initial_only_at_0_witness:
  "\<exists>ra rb. cumulative_trapezoidal_integral [0, 1, 3] [2, 4, 5] 5 = Inr ra
     \<and> cumulative_trapezoidal_integral [0, 1, 3] [2, 4, 5] 7 = Inr rb
     \<and> ra ! 0 = 5 \<and> rb ! 0 = 7 \<and> ra ! 1 = rb ! 1 \<and> ra ! 2 = rb ! 2"
proof -
  have h: "length [0, 1, 3 :: real] = length [2, 4, 5 :: real]" "2 \<le> length [0, 1, 3 :: real]"
    by simp_all
  from cumulative_trapezoidal_integral_initial_only_at_0[OF h, of 5 7]
  show ?thesis by auto
qed

subsection \<open>The threshold index\<close>

lemma np_max_eq:
  assumes "xs \<noteq> []"
  shows "np_max xs = Inr (Max (set xs))"
proof (cases xs)
  case Nil
  with assms show ?thesis by simp
next
  case (Cons a list)
  then show ?thesis using Max.set_eq_fold[of a list] by simp
qed

lemma upt_split_first:
  assumes "[0 ..< n] = us @ i # vs"
  shows "us = [0 ..< i] \<and> i < n"
proof -
  from assms have "length [0 ..< n] = length (us @ i # vs)" by simp
  then have len: "length us < n" by simp
  have "[0 ..< n] ! length us = i" using assms by simp
  with len have i: "i = length us" by simp
  have "us = take (length us) [0 ..< n]" using assms by simp
  also have "\<dots> = [0 ..< length us]" using len by (simp add: take_upt)
  finally show ?thesis using i len by simp
qed

lemma argwhere_first:
  assumes "argwhere p xs = i # rest"
  shows "i < length xs \<and> p (xs ! i) \<and> (\<forall>j<i. \<not> p (xs ! j))"
proof -
  from assms obtain us vs where d: "[0 ..< length xs] = us @ i # vs"
    and no: "\<forall>u\<in>set us. \<not> p (xs ! u)" and yes: "p (xs ! i)"
    unfolding argwhere_def filter_eq_Cons_iff by blast
  from upt_split_first[OF d] have "us = [0 ..< i]" "i < length xs" by simp_all
  with no yes show ?thesis by simp
qed

lemma argwhere_Nil_iff: "argwhere p xs = [] \<longleftrightarrow> (\<forall>i<length xs. \<not> p (xs ! i))"
  by (auto simp: argwhere_def filter_empty_conv)

lemma exceeds_Max_iff:
  "xs \<noteq> [] \<Longrightarrow> (Max (set xs) < (t::real)) \<longleftrightarrow> (\<forall>i<length xs. xs ! i < t)"
  by (auto simp: all_set_conv_all_nth)

lemma get_index_from_threshold_cases:
  assumes "tms \<noteq> []"
  shows "(Max (set tms) < t \<and> get_index_from_threshold tms t = Inr (- 1))
       \<or> (t \<le> Max (set tms) \<and> (\<exists>i rest. argwhere (\<lambda>x. t \<le> x) tms = i # rest
              \<and> get_index_from_threshold tms t = Inr (int i)))"
proof (cases "Max (set tms) < t")
  case True
  then show ?thesis
    using assms by (simp add: get_index_from_threshold_def np_max_eq bind_def)
next
  case False
  then have "\<not> (\<forall>i<length tms. tms ! i < t)"
    using exceeds_Max_iff[OF assms, of t] by simp
  then have "argwhere (\<lambda>x. t \<le> x) tms \<noteq> []"
    by (auto simp: argwhere_Nil_iff not_less)
  then obtain i rest where a: "argwhere (\<lambda>x. t \<le> x) tms = i # rest"
    by (cases "argwhere (\<lambda>x. t \<le> x) tms") auto
  have le: "t \<le> Max (set tms)" by (rule leI[OF False])
  have g: "get_index_from_threshold tms t = Inr (int i)"
    using False a by (simp add: get_index_from_threshold_def np_max_eq[OF assms] bind_def)
  from le a g show ?thesis by blast
qed


text \<open>
  Claim C4. For a non-empty sequence of times (ascending or not): when some element is
  \<open>\<ge> t_thresh\<close> the function returns the smallest index \<open>i\<close> with
  \<open>times[i] \<ge> t_thresh\<close>; when \<open>t_thresh\<close> exceeds every element it returns \<open>-1\<close>.
  The two examples of the specification are part of the statement.
\<close>

theorem get_index_from_threshold_smallest:
  assumes "tms \<noteq> []"
  shows "((\<exists>i<length tms. t \<le> tms ! i) \<longrightarrow>
           (\<exists>i. get_index_from_threshold tms t = Inr (int i) \<and> i < length tms
                \<and> t \<le> tms ! i \<and> (\<forall>j<i. tms ! j < t)))
       \<and> ((\<forall>i<length tms. tms ! i < t) \<longrightarrow> get_index_from_threshold tms t = Inr (- 1))
       \<and> get_index_from_threshold [0, 1, 2, 3] 1.5 = Inr 2
       \<and> get_index_from_threshold [0, 1, 2] 5 = Inr (- 1)"
proof (intro conjI impI)
  assume ex: "\<exists>i<length tms. t \<le> tms ! i"
  then have "\<not> Max (set tms) < t"
    using exceeds_Max_iff[OF assms, of t] by (auto simp: not_less)
  with get_index_from_threshold_cases[OF assms, of t]
  obtain i rest where a: "argwhere (\<lambda>x. t \<le> x) tms = i # rest"
    and g: "get_index_from_threshold tms t = Inr (int i)" by auto
  from argwhere_first[OF a] g
  show "\<exists>i. get_index_from_threshold tms t = Inr (int i) \<and> i < length tms
                \<and> t \<le> tms ! i \<and> (\<forall>j<i. tms ! j < t)"
    by (auto simp: not_le)
next
  assume "\<forall>i<length tms. tms ! i < t"
  then have "Max (set tms) < t" using exceeds_Max_iff[OF assms, of t] by simp
  with get_index_from_threshold_cases[OF assms, of t]
  show "get_index_from_threshold tms t = Inr (- 1)" by auto
next
  show "get_index_from_threshold [0, 1, 2, 3] 1.5 = Inr 2"
    by (simp add: get_index_from_threshold_def bind_def argwhere_def upt_rec)
next
  show "get_index_from_threshold [0, 1, 2] 5 = Inr (- 1)"
    by (simp add: get_index_from_threshold_def bind_def)
qed

theorem get_index_from_threshold_smallest_witness:
  "get_index_from_threshold [0, 1, 2, 3] 1.5 = Inr 2
   \<and> get_index_from_threshold [0, 1, 2] 5 = Inr (- 1)
   \<and> (\<exists>i. get_index_from_threshold [1, 4, 4, 9] 4 = Inr (int i)
          \<and> i < length [1, 4, 4, 9 :: real]
          \<and> 4 \<le> [1, 4, 4, 9 :: real] ! i \<and> (\<forall>j<i. [1, 4, 4, 9 :: real] ! j < 4))"
proof -
  have ne: "[1, 4, 4, 9 :: real] \<noteq> []" by simp
  have ex: "\<exists>i<length [1, 4, 4, 9 :: real]. 4 \<le> [1, 4, 4, 9 :: real] ! i"
    by (rule exI[of _ 1]) simp
  from get_index_from_threshold_smallest[OF ne, of 4] ex
  show ?thesis by simp
qed

subsection \<open>The threshold index on values that may be NaN\<close>

lemma fold_fl_maximum_Val:
  "fold fl_maximum (map Val xs) (Val x) = Val (fold max xs x)"
  by (induction xs arbitrary: x) simp_all

lemma fold_fl_maximum_NaN: "fold fl_maximum xs NaN = NaN"
  by (induction xs) simp_all

lemma fold_fl_maximum_has_NaN:
  "NaN \<in> set xs \<Longrightarrow> fold fl_maximum xs x = NaN"
proof (induction xs arbitrary: x)
  case Nil
  then show ?case by simp
next
  case (Cons a xs)
  show ?case
  proof (cases "a = NaN")
    case True
    then have "fl_maximum a x = NaN" by (cases x) simp_all
    then show ?thesis by (simp add: fold_fl_maximum_NaN)
  next
    case False
    with Cons show ?thesis by simp
  qed
qed

lemma np_max_fl_has_NaN:
  assumes "NaN \<in> set tms"
  shows "np_max_fl tms = Inr NaN"
proof (cases tms)
  case Nil
  with assms show ?thesis by simp
next
  case (Cons x xs)
  show ?thesis
  proof (cases "x = NaN")
    case True
    with Cons show ?thesis by (simp add: fold_fl_maximum_NaN)
  next
    case False
    with assms Cons have "NaN \<in> set xs" by simp
    with Cons show ?thesis by (simp add: fold_fl_maximum_has_NaN)
  qed
qed

lemma no_NaN_map_Val:
  "NaN \<notin> set xs \<Longrightarrow> \<exists>vs. xs = map Val vs"
proof (induction xs)
  case Nil
  then show ?case by simp
next
  case (Cons a xs)
  then obtain vs where vs: "xs = map Val vs" by auto
  from Cons.prems obtain v where "a = Val v" by (cases a) auto
  with vs have "a # xs = map Val (v # vs)" by simp
  then show ?case by (rule exI)
qed

lemma np_max_fl_Val:
  assumes "vs \<noteq> []"
  shows "np_max_fl (map Val vs) = Inr (Val (Max (set vs)))"
proof (cases vs)
  case Nil
  with assms show ?thesis by simp
next
  case (Cons a list)
  then show ?thesis
    using Max.set_eq_fold[of a list] by (simp add: fold_fl_maximum_Val)
qed

lemma exceeds_Max_linorder_iff:
  "xs \<noteq> [] \<Longrightarrow> (Max (set xs) < (t::'a::linorder)) \<longleftrightarrow> (\<forall>i<length xs. xs ! i < t)"
  by (auto simp: all_set_conv_all_nth)

lemma argwhere_map_Val:
  "argwhere (\<lambda>x. fl_ge x (Val t)) (map Val vs) = argwhere (\<lambda>x. x \<ge> t) vs"
  unfolding argwhere_def
  by (rule filter_cong) simp_all

lemma get_index_from_threshold_fl_Val_cases:
  assumes "vs \<noteq> []"
  shows "(Max (set vs) < t \<and> get_index_from_threshold_fl (map Val vs) (Val t) = Inr (- 1))
       \<or> (t \<le> Max (set vs) \<and> (\<exists>i rest. argwhere (\<lambda>x. x \<ge> t) vs = i # rest
              \<and> get_index_from_threshold_fl (map Val vs) (Val t) = Inr (int i)))"
proof (cases "Max (set vs) < t")
  case True
  then show ?thesis
    by (simp add: get_index_from_threshold_fl_def np_max_fl_Val[OF assms] bind_def)
next
  case False
  then have "\<not> (\<forall>i<length vs. vs ! i < t)"
    using exceeds_Max_linorder_iff[OF assms, of t] by simp
  then have "argwhere (\<lambda>x. t \<le> x) vs \<noteq> []"
    by (auto simp: argwhere_Nil_iff not_less)
  then obtain i rest where a: "argwhere (\<lambda>x. t \<le> x) vs = i # rest"
    by (cases "argwhere (\<lambda>x. t \<le> x) vs") auto
  have le: "t \<le> Max (set vs)" by (rule leI[OF False])
  have g: "get_index_from_threshold_fl (map Val vs) (Val t) = Inr (int i)"
    using False a
    by (simp add: get_index_from_threshold_fl_def np_max_fl_Val[OF assms] bind_def argwhere_map_Val)
  from le a g show ?thesis by blast
qed

lemma get_index_from_threshold_agrees:
  "get_index_from_threshold tms t = get_index_from_threshold_fl (map Val tms) (Val t)"
proof (cases tms)
  case Nil
  then show ?thesis
    by (simp add: get_index_from_threshold_def get_index_from_threshold_fl_def bind_def)
next
  case (Cons a list)
  then show ?thesis
    unfolding get_index_from_threshold_def get_index_from_threshold_fl_def argwhere_map_Val
    by (simp add: fold_fl_maximum_Val bind_def)
qed

text \<open>
  Claim C10, as stated, lets the read of the first matching index go out of bounds only
  when the threshold strictly exceeds the maximum. With a NaN threshold on
  \<open>times = [0, 1, 2]\<close> the maximum is 2, \<open>NaN > 2\<close> is false, so \<open>-1\<close> is not
  returned, and no time is \<open>\<ge> NaN\<close>: the list of indices is empty and the read is
  out of bounds.
\<close>

theorem get_index_from_threshold_fl_nan_counterexample:
  "np_max_fl [Val 0, Val 1, Val (2::real)] = Inr (Val 2)
   \<and> \<not> fl_gt NaN (Val (2::real))
   \<and> argwhere (\<lambda>x. fl_ge x NaN) [Val 0, Val 1, Val (2::real)] = []
   \<and> get_index_from_threshold_fl [Val 0, Val 1, Val (2::real)] NaN = Inl IndexError"
  by (simp add: get_index_from_threshold_fl_def bind_def argwhere_def)

text \<open>
  Claim C10, amended. For every non-empty sequence of times and every threshold with
  \<open>t_thresh \<le> max(times)\<close> (a comparison that is false when one side is NaN) the list
  of indices with \<open>times[i] \<ge> t_thresh\<close> is not empty, so reading its first entry is
  in bounds, and the result is an index in \<open>[0, length times)\<close>. When neither the
  threshold nor any time is NaN, the list is empty only when the threshold strictly
  exceeds the maximum, and then \<open>-1\<close> has been returned before the read.
\<close>

theorem get_index_from_threshold_fl_in_bounds:
  assumes "tms \<noteq> []"
  shows "\<exists>m. np_max_fl tms = Inr m
          \<and> (fl_ge m t \<longrightarrow>
                argwhere (\<lambda>x. fl_ge x t) tms \<noteq> []
              \<and> (\<exists>i. get_index_from_threshold_fl tms t = Inr (int i) \<and> i < length tms
                     \<and> fl_ge (tms ! i) t))
          \<and> (t \<noteq> NaN \<and> NaN \<notin> set tms \<longrightarrow>
                (argwhere (\<lambda>x. fl_ge x t) tms = [] \<longrightarrow> fl_gt t m)
              \<and> get_index_from_threshold_fl tms t \<noteq> Inl IndexError)
          \<and> (fl_gt t m \<longrightarrow> get_index_from_threshold_fl tms t = Inr (- 1))"
proof -
  from assms obtain m where m: "np_max_fl tms = Inr m" by (cases tms) auto
  have gt: "get_index_from_threshold_fl tms t = Inr (- 1)" if "fl_gt t m"
    using that m by (simp add: get_index_from_threshold_fl_def bind_def)
  have clean: "(argwhere (\<lambda>x. fl_ge x t) tms \<noteq> [] \<or> fl_gt t m)
               \<and> get_index_from_threshold_fl tms t \<noteq> Inl IndexError
               \<and> (fl_ge m t \<longrightarrow> argwhere (\<lambda>x. fl_ge x t) tms \<noteq> []
                    \<and> (\<exists>i. get_index_from_threshold_fl tms t = Inr (int i) \<and> i < length tms
                           \<and> fl_ge (tms ! i) t))"
    if t: "t \<noteq> NaN" and n: "NaN \<notin> set tms"
  proof -
    from t obtain tv where tv: "t = Val tv" by (cases t) auto
    from no_NaN_map_Val[OF n] obtain vs where vs: "tms = map Val vs" by blast
    with assms have ne: "vs \<noteq> []" by auto
    from m have mv: "m = Val (Max (set vs))" using np_max_fl_Val[OF ne] vs by simp
    from get_index_from_threshold_fl_Val_cases[OF ne, of tv]
    show ?thesis
    proof
      assume "Max (set vs) < tv \<and> get_index_from_threshold_fl (map Val vs) (Val tv) = Inr (- 1)"
      then show ?thesis using tv vs mv by (auto simp: not_le)
    next
      assume "tv \<le> Max (set vs) \<and> (\<exists>i rest. argwhere (\<lambda>x. x \<ge> tv) vs = i # rest
              \<and> get_index_from_threshold_fl (map Val vs) (Val tv) = Inr (int i))"
      then obtain i rest where a: "argwhere (\<lambda>x. x \<ge> tv) vs = i # rest"
        and g: "get_index_from_threshold_fl (map Val vs) (Val tv) = Inr (int i)" by blast
      from argwhere_first[OF a] have i: "i < length vs" "tv \<le> vs ! i" by simp_all
      have a': "argwhere (\<lambda>x. fl_ge x t) tms = i # rest"
        using a tv vs by (simp add: argwhere_map_Val)
      have "fl_ge (tms ! i) t" using i tv vs by simp
      with a' g i tv vs show ?thesis by auto
    qed
  qed
  have ge: "argwhere (\<lambda>x. fl_ge x t) tms \<noteq> []
            \<and> (\<exists>i. get_index_from_threshold_fl tms t = Inr (int i) \<and> i < length tms
                   \<and> fl_ge (tms ! i) t)" if "fl_ge m t"
  proof -
    from that have t: "t \<noteq> NaN" and mn: "m \<noteq> NaN" by (cases m; cases t; simp)+
    have n: "NaN \<notin> set tms"
    proof
      assume "NaN \<in> set tms"
      from np_max_fl_has_NaN[OF this] m mn show False by simp
    qed
    from clean[OF t n] that show ?thesis by blast
  qed
  from m gt clean ge show ?thesis by blast
qed

theorem get_index_from_threshold_fl_in_bounds_witness:
  "np_max_fl [Val 1, Val 4, Val 4, Val (9::real)] = Inr (Val 9)
   \<and> argwhere (\<lambda>x. fl_ge x (Val 4)) [Val 1, Val 4, Val 4, Val (9::real)] \<noteq> []
   \<and> (\<exists>i. get_index_from_threshold_fl [Val 1, Val 4, Val 4, Val (9::real)] (Val 4) = Inr (int i)
          \<and> i < length [Val 1, Val 4, Val 4, Val (9::real)])
   \<and> get_index_from_threshold_fl [Val 1, Val 4, Val 4, Val (9::real)] (Val 4) \<noteq> Inl IndexError
   \<and> get_index_from_threshold_fl [Val 1, Val 4, Val 4, Val (9::real)] (Val 10) = Inr (- 1)"
proof -
  have ne: "[Val 1, Val 4, Val 4, Val (9::real)] \<noteq> []" by simp
  have m: "np_max_fl [Val 1, Val 4, Val 4, Val (9::real)] = Inr (Val 9)" by simp
  from get_index_from_threshold_fl_in_bounds[OF ne, of "Val 4"]
    get_index_from_threshold_fl_in_bounds[OF ne, of "Val 10"]
  show ?thesis unfolding m by auto
qed

subsection \<open>The dispatcher\<close>

text \<open>
  Claim C5. The dispatcher succeeds exactly on the names \<open>patlak\<close>, \<open>logan\<close> and
  \<open>alt_logan\<close>, returning the matching analysis; on every other name it returns at
  once the ValueError whose message ends with the offending name, as on \<open>bogus\<close>.
\<close>

theorem get_graphical_analysis_method_names:
  "get_graphical_analysis_method lstsq ''patlak'' = Inr (patlak_analysis lstsq)
   \<and> get_graphical_analysis_method lstsq ''logan'' = Inr (logan_analysis lstsq)
   \<and> get_graphical_analysis_method lstsq ''alt_logan'' = Inr (alternative_logan_analysis lstsq)
   \<and> ((\<exists>f. get_graphical_analysis_method lstsq name = Inr f)
        \<longleftrightarrow> name \<in> {''patlak'', ''logan'', ''alt_logan''})
   \<and> (name \<notin> {''patlak'', ''logan'', ''alt_logan''} \<longrightarrow>
        get_graphical_analysis_method lstsq name = Inl (ValueError
          (''Invalid method_name! Must be either 'patlak', 'logan', or 'alt_logan'. Got '' @ name)))
   \<and> get_graphical_analysis_method lstsq ''bogus'' = Inl (ValueError
          ''Invalid method_name! Must be either 'patlak', 'logan', or 'alt_logan'. Got bogus'')"
  by (simp add: get_graphical_analysis_method_def)

theorem get_graphical_analysis_method_names_witness:
  "get_graphical_analysis_method lstsq_exact ''Patlak'' = Inl (ValueError
     ''Invalid method_name! Must be either 'patlak', 'logan', or 'alt_logan'. Got Patlak'')
   \<and> \<not> (\<exists>f. get_graphical_analysis_method lstsq_exact ''Patlak'' = Inr f)"
  using get_graphical_analysis_method_names[of lstsq_exact "''Patlak''"]
  by simp

text \<open>
  Claim C6. For every valid method name, what the dispatcher returns, applied to the
  inputs, is the result of the matching analysis on the same inputs.
\<close>

theorem get_graphical_analysis_method_pass_through:
  assumes "name \<in> {''patlak'', ''logan'', ''alt_logan''}"
  shows "\<exists>f. get_graphical_analysis_method lstsq name = Inr f
          \<and> f input_tac_values region_tac_values tac_times t_thresh =
              (if name = ''patlak''
                 then patlak_analysis lstsq input_tac_values region_tac_values tac_times t_thresh
               else if name = ''logan''
                 then logan_analysis lstsq input_tac_values region_tac_values tac_times t_thresh
               else alternative_logan_analysis lstsq input_tac_values region_tac_values tac_times t_thresh)"
  using assms by (auto simp: get_graphical_analysis_method_def)

theorem get_graphical_analysis_method_pass_through_witness:
  "\<exists>f. get_graphical_analysis_method lstsq_exact ''patlak'' = Inr f
     \<and> f [1, 2, 4] [2, 3, 8] [0, 1, 2] 1 = patlak_analysis lstsq_exact [1, 2, 4] [2, 3, 8] [0, 1, 2] 1"
proof -
  have h: "''patlak'' \<in> {''patlak'', ''logan'', ''alt_logan''}" by simp
  from get_graphical_analysis_method_pass_through[OF h, of lstsq_exact "[1, 2, 4]" "[2, 3, 8]" "[0, 1, 2]" 1]
  show ?thesis by simp
qed

subsection \<open>The analyses on well-formed inputs\<close>

lemma np_divide_same_length:
  "length xs = length ys \<Longrightarrow> np_divide xs ys = Inr (map2 fdiv xs ys)"
  by (simp add: np_divide_def broadcast2_def)

lemma get_index_from_threshold_returns:
  assumes "tms \<noteq> []"
  shows "\<exists>k. get_index_from_threshold tms t = Inr k"
  using get_index_from_threshold_cases[OF assms, of t] by auto

lemma analyses_elementwise:
  assumes li: "length input_tac_values = length tac_times"
    and lr: "length region_tac_values = length tac_times"
    and ne: "tac_times \<noteq> []"
  shows "\<exists>k ci cr.
           get_index_from_threshold tac_times t_thresh = Inr k
         \<and> cumulative_trapezoidal_integral tac_times input_tac_values 0 = Inr ci
         \<and> cumulative_trapezoidal_integral tac_times region_tac_values 0 = Inr cr
         \<and> length ci = length tac_times \<and> length cr = length tac_times
         \<and> patlak_analysis lstsq input_tac_values region_tac_values tac_times t_thresh
             = fit_line_to_data_using_lls lstsq
                 (slice_from k (map2 fdiv ci input_tac_values))
                 (slice_from k (map2 fdiv region_tac_values input_tac_values))
         \<and> logan_analysis lstsq input_tac_values region_tac_values tac_times t_thresh
             = fit_line_to_data_using_lls lstsq
                 (slice_from k (map2 fdiv ci region_tac_values))
                 (slice_from k (map2 fdiv cr region_tac_values))
         \<and> alternative_logan_analysis lstsq input_tac_values region_tac_values tac_times t_thresh
             = fit_line_to_data_using_lls lstsq
                 (slice_from k (map2 fdiv ci region_tac_values))
                 (slice_from k (map2 fdiv cr input_tac_values))"
proof -
  from get_index_from_threshold_returns[OF ne, of t_thresh]
  obtain k where k: "get_index_from_threshold tac_times t_thresh = Inr k" by blast
  from cumulative_trapezoidal_integral_nth[OF li[symmetric] ne, of 0]
  obtain ci where ci: "cumulative_trapezoidal_integral tac_times input_tac_values 0 = Inr ci"
    and lci: "length ci = length tac_times" by blast
  from cumulative_trapezoidal_integral_nth[OF lr[symmetric] ne, of 0]
  obtain cr where cr: "cumulative_trapezoidal_integral tac_times region_tac_values 0 = Inr cr"
    and lcr: "length cr = length tac_times" by blast
  have d1: "np_divide ci input_tac_values = Inr (map2 fdiv ci input_tac_values)"
    using li lci by (simp add: np_divide_same_length)
  have d2: "np_divide region_tac_values input_tac_values
            = Inr (map2 fdiv region_tac_values input_tac_values)"
    using li lr by (simp add: np_divide_same_length)
  have d3: "np_divide ci region_tac_values = Inr (map2 fdiv ci region_tac_values)"
    using lr lci by (simp add: np_divide_same_length)
  have d4: "np_divide cr region_tac_values = Inr (map2 fdiv cr region_tac_values)"
    using lr lcr by (simp add: np_divide_same_length)
  have d5: "np_divide cr input_tac_values = Inr (map2 fdiv cr input_tac_values)"
    using li lcr by (simp add: np_divide_same_length)
  have p: "patlak_analysis lstsq input_tac_values region_tac_values tac_times t_thresh
             = fit_line_to_data_using_lls lstsq
                 (slice_from k (map2 fdiv ci input_tac_values))
                 (slice_from k (map2 fdiv region_tac_values input_tac_values))"
    unfolding patlak_analysis_def calculate_patlak_x_def
    by (simp only: k ci d1 d2 bind_Inr)
  have l: "logan_analysis lstsq input_tac_values region_tac_values tac_times t_thresh
             = fit_line_to_data_using_lls lstsq
                 (slice_from k (map2 fdiv ci region_tac_values))
                 (slice_from k (map2 fdiv cr region_tac_values))"
    unfolding logan_analysis_def
    by (simp only: k ci cr d3 d4 bind_Inr)
  have al: "alternative_logan_analysis lstsq input_tac_values region_tac_values tac_times t_thresh
             = fit_line_to_data_using_lls lstsq
                 (slice_from k (map2 fdiv ci region_tac_values))
                 (slice_from k (map2 fdiv cr input_tac_values))"
    unfolding alternative_logan_analysis_def
    by (simp only: k ci cr d3 d5 bind_Inr)
  from k ci cr lci lcr p l al show ?thesis by blast
qed

lemma slice_from_minus_one:
  "xs \<noteq> [] \<Longrightarrow> slice_from (- 1) xs = [last xs]"
proof -
  assume ne: "xs \<noteq> []"
  then have "xs = butlast xs @ [last xs]" by simp
  then have "drop (length (butlast xs)) xs = [last xs]"
    by (metis append_eq_conv_conj)
  moreover have "nat (max (int (length xs) + - 1) 0) = length (butlast xs)"
    using ne by (cases xs) simp_all
  ultimately show ?thesis by (simp add: slice_from_def)
qed

lemma make_rhs_rows:
  "line_fitting_make_rhs_matrix_from_xdata xdata = map (\<lambda>x. [x, Finite 1]) xdata"
  by (intro nth_equalityI) (simp_all add: line_fitting_make_rhs_matrix_from_xdata_def)

lemma last_map2:
  "length xs = length ys \<Longrightarrow> xs \<noteq> [] \<Longrightarrow> last (map2 f xs ys) = f (last xs) (last ys)"
  by (induction xs ys rule: list_induct2) (auto split: if_splits)

subsection \<open>Least squares: the exact solver meets the contract\<close>

lemma sq_residual_shift:
  assumes "length xs = length ys"
  shows "sq_residual m' b' xs ys =
           sq_residual m b xs ys
         + sum_list (map (\<lambda>x. ((m - m') * x + (b - b'))\<^sup>2) xs)
         + 2 * ((m - m') * (sum_list (map2 (\<lambda>x y. x * y) xs ys)
                             - m * sum_list (map (\<lambda>x. x * x) xs) - b * sum_list xs)
              + (b - b') * (sum_list ys - m * sum_list xs - b * real (length xs)))"
  using assms
proof (induction xs ys rule: list_induct2)
  case Nil
  then show ?case by (simp add: sq_residual_def)
next
  case (Cons x xs y ys)
  then show ?case
    unfolding sq_residual_def
    by (simp add: power2_eq_square algebra_simps)
qed

lemma sum_list_sq_dev:
  "sum_list (map (\<lambda>x. (x - c)\<^sup>2) xs)
     = sum_list (map (\<lambda>x. x * x) xs) - 2 * c * sum_list xs + real (length xs) * c * (c::real)"
  by (induction xs) (simp_all add: power2_eq_square algebra_simps)

lemma sum_list_sq_zero:
  "sum_list (map (\<lambda>x. (x - c)\<^sup>2) xs) = 0 \<Longrightarrow> x \<in> set xs \<Longrightarrow> x = (c::real)"
proof (induction xs)
  case Nil
  then show ?case by simp
next
  case (Cons a xs)
  have nn: "0 \<le> sum_list (map (\<lambda>x. (x - c)\<^sup>2) xs)"
    by (rule sum_list_nonneg) auto
  from Cons.prems(1) have s: "(a - c)\<^sup>2 + sum_list (map (\<lambda>x. (x - c)\<^sup>2) xs) = 0" by simp
  have a0: "(a - c)\<^sup>2 = 0" and r0: "sum_list (map (\<lambda>x. (x - c)\<^sup>2) xs) = 0"
    using s nn zero_le_power2[of "a - c"] by linarith+
  then show ?case using Cons by auto
qed

lemma sum_list_const_mult:
  assumes "length xs = length ys" and "\<And>x. x \<in> set xs \<Longrightarrow> x = (c::real)"
  shows "sum_list (map2 (\<lambda>x y. x * y) xs ys) = c * sum_list ys"
  using assms
  by (induction xs ys rule: list_induct2) (simp_all add: algebra_simps)

lemma line_solution_normal_equations:
  assumes len: "length xs = length ys" and ne: "xs \<noteq> []"
    and sol: "line_solution xs ys = (m, b)"
  shows "sum_list (map2 (\<lambda>x y. x * y) xs ys) - m * sum_list (map (\<lambda>x. x * x) xs) - b * sum_list xs = 0"
    and "sum_list ys - m * sum_list xs - b * real (length xs) = 0"
proof -
  define n where "n = real (length xs)"
  define sx where "sx = sum_list xs"
  define sy where "sy = sum_list ys"
  define sxx where "sxx = sum_list (map (\<lambda>x. x * x) xs)"
  define sxy where "sxy = sum_list (map2 (\<lambda>x y. x * y) xs ys)"
  define d where "d = n * sxx - sx * sx"
  have npos: "0 < n" using ne by (simp add: n_def)
  have "sxy - m * sxx - b * sx = 0 \<and> sy - m * sx - b * n = 0"
  proof (cases "d = 0")
    case False
    with sol have m: "m = (n * sxy - sx * sy) / d" and b: "b = (sxx * sy - sx * sxy) / d"
      by (simp_all add: line_solution_def Let_def n_def sx_def sy_def sxx_def sxy_def d_def)
    have "d * (sxy - m * sxx - b * sx) = 0"
      using False by (simp add: m b d_def field_simps)
    moreover have "d * (sy - m * sx - b * n) = 0"
      using False by (simp add: m b d_def field_simps)
    ultimately show ?thesis using False by simp
  next
    case True
    define c where "c = sx / n"
    define ybar where "ybar = sy / n"
    from True sol have m: "m = c * ybar / (c * c + 1)" and b: "b = ybar / (c * c + 1)"
      by (simp_all add: line_solution_def Let_def n_def sx_def sy_def sxx_def sxy_def d_def
          c_def ybar_def)
    have sxc: "sx = n * c" using npos by (simp add: c_def)
    have syc: "sy = n * ybar" using npos by (simp add: ybar_def)
    have "n * sum_list (map (\<lambda>x. (x - c)\<^sup>2) xs) = d"
      unfolding sum_list_sq_dev d_def sxx_def[symmetric] sx_def[symmetric] n_def[symmetric]
      using npos by (simp add: c_def field_simps)
    with True npos have z: "sum_list (map (\<lambda>x. (x - c)\<^sup>2) xs) = 0" by simp
    have allc: "\<And>x. x \<in> set xs \<Longrightarrow> x = c" using sum_list_sq_zero[OF z] .
    have sxyc: "sxy = c * sy" unfolding sxy_def sy_def by (rule sum_list_const_mult[OF len allc])
    have sxxc: "sxx = n * c * c"
      using True npos by (simp add: d_def sxc field_simps)
    have pos: "c * c + 1 \<noteq> 0" using zero_le_square[of c] by linarith
    have "(c * c + 1) * (sxy - m * sxx - b * sx) = 0"
      using pos by (simp add: m b sxyc sxxc sxc syc field_simps)
    moreover have "(c * c + 1) * (sy - m * sx - b * n) = 0"
      using pos by (simp add: m b sxc syc field_simps)
    ultimately show ?thesis using pos by simp
  qed
  then show "sum_list (map2 (\<lambda>x y. x * y) xs ys) - m * sum_list (map (\<lambda>x. x * x) xs) - b * sum_list xs = 0"
    and "sum_list ys - m * sum_list xs - b * real (length xs) = 0"
    by (simp_all add: n_def sx_def sy_def sxx_def sxy_def)
qed

lemma line_solution_minimal:
  assumes len: "length xs = length ys" and ne: "xs \<noteq> []"
    and sol: "line_solution xs ys = (m, b)"
  shows "sq_residual m b xs ys \<le> sq_residual m' b' xs ys"
proof -
  have nn: "0 \<le> sum_list (map (\<lambda>x. ((m - m') * x + (b - b'))\<^sup>2) xs)"
    by (rule sum_list_nonneg) auto
  show ?thesis
    using nn
    unfolding sq_residual_shift[OF len, of m' b' m b]
      line_solution_normal_equations[OF len ne sol]
    by simp
qed

lemma reals_of_map_Finite: "reals_of (map Finite ys) = Some ys"
  by (induction ys) simp_all

lemma lstsq_exact_on_line_system:
  assumes "length xs = length ys"
  shows "lstsq_exact (map (\<lambda>x. [Finite x, Finite 1]) xs) (map Finite ys)
         = Inr [Finite (fst (line_solution xs ys)), Finite (snd (line_solution xs ys))]"
proof -
  have a: "list_all (\<lambda>row. length row = 2 \<and> row ! 1 = Finite 1) (map (\<lambda>x. [Finite x, Finite 1]) xs)"
    by (simp add: list_all_iff)
  have h: "map hd (map (\<lambda>x. [Finite x, Finite 1]) xs) = map Finite xs" by simp
  show ?thesis
    unfolding lstsq_exact_def h reals_of_map_Finite
    using a assms by (simp add: case_prod_beta)
qed

lemma lstsq_exact_contract: "lstsq_contract lstsq_exact"
  unfolding lstsq_contract_def
proof (intro allI impI)
  fix xs ys :: "real list"
  assume h: "length xs = length ys \<and> xs \<noteq> []"
  obtain m b where sol: "line_solution xs ys = (m, b)" by (cases "line_solution xs ys")
  have "lstsq_exact (map (\<lambda>x. [Finite x, Finite 1]) xs) (map Finite ys) = Inr [Finite m, Finite b]"
    using lstsq_exact_on_line_system[of xs ys] h sol by simp
  moreover have "\<forall>m' b'. sq_residual m b xs ys \<le> sq_residual m' b' xs ys"
    using line_solution_minimal[OF _ _ sol] h by blast
  ultimately show "\<exists>m b. lstsq_exact (map (\<lambda>x. [Finite x, Finite 1]) xs) (map Finite ys) = Inr [Finite m, Finite b]
               \<and> (\<forall>m' b'. sq_residual m b xs ys \<le> sq_residual m' b' xs ys)"
    by blast
qed

subsection \<open>Evaluation on concrete inputs\<close>

lemmas cumint_eval = cumulative_trapezoidal_integral_def np_diff_def broadcast2_def bind_def
      assign_from_def np_cumsum_def

subsection \<open>The method table\<close>









subsection \<open>The sentinel index in the analyses\<close>

lemma fit_line_one_sample:
  assumes "length xs = length ys" and "xs \<noteq> []"
  shows "fit_line_to_data_using_lls lstsq (slice_from (- 1) (map2 fdiv xs ys)) v
         = lstsq [[fdiv (last xs) (last ys), Finite 1]] v"
proof -
  have ne: "map2 fdiv xs ys \<noteq> []" using assms by (cases xs; cases ys) simp_all
  show ?thesis
    unfolding fit_line_to_data_using_lls_def Let_def make_rhs_rows
      slice_from_minus_one[OF ne] last_map2[OF assms]
    by simp
qed

lemma slice_last_map2:
  assumes "length xs = length ys" and "xs \<noteq> []"
  shows "slice_from (- 1) (map2 fdiv xs ys) = [fdiv (last xs) (last ys)]"
proof -
  have ne: "map2 fdiv xs ys \<noteq> []" using assms by (cases xs; cases ys) simp_all
  show ?thesis
    unfolding slice_from_minus_one[OF ne] last_map2[OF assms] by simp
qed

text \<open>
  Claim C1 asks that a threshold beyond every sample time, where the threshold index is
  the sentinel \<open>-1\<close>, makes each analysis fail or return early. The code does not test
  the sentinel: \<^verbatim>\<open>x[-1:]\<close> is the one-element tail, so on well-formed inputs each
  analysis hands the solver the one-row system built from the last sample, a sample that
  lies before the threshold.
\<close>

theorem sentinel_fits_last_sample:
  assumes li: "length input_tac_values = length tac_times"
    and lr: "length region_tac_values = length tac_times"
    and ne: "tac_times \<noteq> []"
    and ex: "\<forall>x\<in>set tac_times. x < t_thresh"
  shows "get_index_from_threshold tac_times t_thresh = Inr (- 1)
       \<and> (\<exists>ci cr.
             cumulative_trapezoidal_integral tac_times input_tac_values 0 = Inr ci
           \<and> cumulative_trapezoidal_integral tac_times region_tac_values 0 = Inr cr
           \<and> patlak_analysis lstsq input_tac_values region_tac_values tac_times t_thresh
               = lstsq [[fdiv (last ci) (last input_tac_values), Finite 1]]
                       [fdiv (last region_tac_values) (last input_tac_values)]
           \<and> logan_analysis lstsq input_tac_values region_tac_values tac_times t_thresh
               = lstsq [[fdiv (last ci) (last region_tac_values), Finite 1]]
                       [fdiv (last cr) (last region_tac_values)]
           \<and> alternative_logan_analysis lstsq input_tac_values region_tac_values tac_times t_thresh
               = lstsq [[fdiv (last ci) (last region_tac_values), Finite 1]]
                       [fdiv (last cr) (last input_tac_values)])"
proof -
  have "Max (set tac_times) < t_thresh" using ne ex by simp
  with get_index_from_threshold_cases[OF ne, of t_thresh]
  have g: "get_index_from_threshold tac_times t_thresh = Inr (- 1)" by auto
  from analyses_elementwise[OF li lr ne, of t_thresh lstsq] g
  obtain ci cr where ci: "cumulative_trapezoidal_integral tac_times input_tac_values 0 = Inr ci"
    and cr: "cumulative_trapezoidal_integral tac_times region_tac_values 0 = Inr cr"
    and lci: "length ci = length tac_times" and lcr: "length cr = length tac_times"
    and p: "patlak_analysis lstsq input_tac_values region_tac_values tac_times t_thresh
             = fit_line_to_data_using_lls lstsq
                 (slice_from (- 1) (map2 fdiv ci input_tac_values))
                 (slice_from (- 1) (map2 fdiv region_tac_values input_tac_values))"
    and l: "logan_analysis lstsq input_tac_values region_tac_values tac_times t_thresh
             = fit_line_to_data_using_lls lstsq
                 (slice_from (- 1) (map2 fdiv ci region_tac_values))
                 (slice_from (- 1) (map2 fdiv cr region_tac_values))"
    and al: "alternative_logan_analysis lstsq input_tac_values region_tac_values tac_times t_thresh
             = fit_line_to_data_using_lls lstsq
                 (slice_from (- 1) (map2 fdiv ci region_tac_values))
                 (slice_from (- 1) (map2 fdiv cr input_tac_values))"
    by auto
  have nci: "ci \<noteq> []" and ncr: "cr \<noteq> []" and nr: "region_tac_values \<noteq> []"
    using ne lci lcr lr by auto
  have e1: "length ci = length input_tac_values" using li lci by simp
  have e2: "length region_tac_values = length input_tac_values" using li lr by simp
  have e3: "length ci = length region_tac_values" using lr lci by simp
  have e4: "length cr = length region_tac_values" using lr lcr by simp
  have e5: "length cr = length input_tac_values" using li lcr by simp
  have p': "patlak_analysis lstsq input_tac_values region_tac_values tac_times t_thresh
               = lstsq [[fdiv (last ci) (last input_tac_values), Finite 1]]
                       [fdiv (last region_tac_values) (last input_tac_values)]"
    unfolding p fit_line_one_sample[OF e1 nci] slice_last_map2[OF e2 nr] ..
  have l': "logan_analysis lstsq input_tac_values region_tac_values tac_times t_thresh
               = lstsq [[fdiv (last ci) (last region_tac_values), Finite 1]]
                       [fdiv (last cr) (last region_tac_values)]"
    unfolding l fit_line_one_sample[OF e3 nci] slice_last_map2[OF e4 ncr] ..
  have al': "alternative_logan_analysis lstsq input_tac_values region_tac_values tac_times t_thresh
               = lstsq [[fdiv (last ci) (last region_tac_values), Finite 1]]
                       [fdiv (last cr) (last input_tac_values)]"
    unfolding al fit_line_one_sample[OF e3 nci] slice_last_map2[OF e5 ncr] ..
  from g ci cr p' l' al' show ?thesis by blast
qed

lemma lstsq_exact_one_row:
  "lstsq_exact [[Finite x, Finite 1]] [Finite y]
   = Inr [Finite (x * y / (x * x + 1)), Finite (y / (x * x + 1))]"
proof -
  have "x * x - x * x = (0::real)" by simp
  then show ?thesis
    by (simp add: lstsq_exact_def line_solution_def)
qed

theorem sentinel_fits_last_sample_witness:
  "get_index_from_threshold [0, 1, 2] 5 = Inr (- 1)
   \<and> patlak_analysis lstsq_exact [1, 2, 4] [2, 3, 8] [0, 1, 2] 5
       = Inr [Finite (144 / 145), Finite (128 / 145)]
   \<and> logan_analysis lstsq_exact [1, 2, 4] [2, 3, 8] [0, 1, 2] 5
       = Inr [Finite (144 / 337), Finite (256 / 337)]
   \<and> alternative_logan_analysis lstsq_exact [1, 2, 4] [2, 3, 8] [0, 1, 2] 5
       = Inr [Finite (288 / 337), Finite (512 / 337)]"
proof -
  have ci: "cumulative_trapezoidal_integral [0, 1, 2] [1, 2, 4] 0 = Inr [0, 3 / 2, 9 / 2]"
    by (simp add: cumint_eval)
  have cr: "cumulative_trapezoidal_integral [0, 1, 2] [2, 3, 8] 0 = Inr [0, 5 / 2, 8]"
    by (simp add: cumint_eval)
  have h: "length [1, 2, 4 :: real] = length [0, 1, 2 :: real]"
    "length [2, 3, 8 :: real] = length [0, 1, 2 :: real]"
    "[0, 1, 2 :: real] \<noteq> []" "\<forall>x\<in>set [0, 1, 2 :: real]. x < 5"
    by simp_all
  from sentinel_fits_last_sample[OF h, of lstsq_exact]
  show ?thesis
    unfolding ci cr
    by (simp add: fdiv_def lstsq_exact_one_row)
qed

subsection \<open>The line fitter\<close>

text \<open>
  Claim C7. For equal-length data of length at least two, the line fitter builds the
  matrix with the rows \<open>[x, 1]\<close> (first column the data, second column ones) and
  returns what the solver returns on it: under the contract of the solver, a pair
  (slope, intercept) that minimises the sum of the squared residuals. On
  \<open>xdata = [0, 1, 2, 3]\<close>, \<open>ydata = [1, 3, 5, 7]\<close> that pair is \<open>(2, 1)\<close>, the only
  minimiser.
\<close>

theorem fit_line_least_squares:
  assumes c: "lstsq_contract lstsq"
    and len: "length xdata = length ydata"
    and two: "2 \<le> length xdata"
  shows "line_fitting_make_rhs_matrix_from_xdata (map Finite xdata)
           = map (\<lambda>x. [Finite x, Finite 1]) xdata
       \<and> (\<exists>m b. fit_line_to_data_using_lls lstsq (map Finite xdata) (map Finite ydata)
                   = Inr [Finite m, Finite b]
                \<and> (\<forall>m' b'. sq_residual m b xdata ydata \<le> sq_residual m' b' xdata ydata))
       \<and> fit_line_to_data_using_lls lstsq (map Finite [0, 1, 2, 3]) (map Finite [1, 3, 5, 7])
           = Inr [Finite 2, Finite 1]"
proof (intro conjI)
  show rows: "line_fitting_make_rhs_matrix_from_xdata (map Finite xdata)
           = map (\<lambda>x. [Finite x, Finite 1]) xdata"
    by (simp add: make_rhs_rows comp_def)
  have fit: "fit_line_to_data_using_lls lstsq (map Finite xs) (map Finite ys)
               = lstsq (map (\<lambda>x. [Finite x, Finite 1]) xs) (map Finite ys)" for xs ys
    by (simp add: fit_line_to_data_using_lls_def make_rhs_rows comp_def)
  from two have ne: "xdata \<noteq> []" by auto
  from c len ne
  show "\<exists>m b. fit_line_to_data_using_lls lstsq (map Finite xdata) (map Finite ydata)
                   = Inr [Finite m, Finite b]
                \<and> (\<forall>m' b'. sq_residual m b xdata ydata \<le> sq_residual m' b' xdata ydata)"
    unfolding fit lstsq_contract_def by blast
  have "length [0, 1, 2, 3 :: real] = length [1, 3, 5, 7 :: real] \<and> [0, 1, 2, 3 :: real] \<noteq> []"
    by simp
  with c obtain m b where
    r: "lstsq (map (\<lambda>x. [Finite x, Finite 1]) [0, 1, 2, 3]) (map Finite [1, 3, 5, 7])
          = Inr [Finite m, Finite b]"
    and mn: "\<forall>m' b'. sq_residual m b [0, 1, 2, 3] [1, 3, 5, 7]
                      \<le> sq_residual m' b' [0, 1, 2, 3] [1, 3, 5, 7]"
    unfolding lstsq_contract_def by blast
  from mn have "sq_residual m b [0, 1, 2, 3] [1, 3, 5, 7] \<le> sq_residual 2 1 [0, 1, 2, 3] [1, 3, 5, 7]"
    by blast
  then have le: "(1 - b)\<^sup>2 + ((3 - (m + b))\<^sup>2 + ((5 - (m * 2 + b))\<^sup>2 + (7 - (m * 3 + b))\<^sup>2)) \<le> 0"
    by (simp add: sq_residual_def)
  have "(1 - b)\<^sup>2 = 0" and "(3 - (m + b))\<^sup>2 = 0"
    using le zero_le_power2[of "1 - b"] zero_le_power2[of "3 - (m + b)"]
      zero_le_power2[of "5 - (m * 2 + b)"] zero_le_power2[of "7 - (m * 3 + b)"]
    by linarith+
  then have "b = 1" and "m = 2" by simp_all
  with r show "fit_line_to_data_using_lls lstsq (map Finite [0, 1, 2, 3]) (map Finite [1, 3, 5, 7])
           = Inr [Finite 2, Finite 1]"
    unfolding fit by simp
qed

theorem fit_line_least_squares_witness:
  "fit_line_to_data_using_lls lstsq_exact (map Finite [0, 1, 2, 3]) (map Finite [1, 3, 5, 7])
     = Inr [Finite 2, Finite 1]
   \<and> (\<exists>m b. fit_line_to_data_using_lls lstsq_exact (map Finite [0, 1, 3]) (map Finite [1, 2, 2])
               = Inr [Finite m, Finite b]
            \<and> (\<forall>m' b'. sq_residual m b [0, 1, 3] [1, 2, 2] \<le> sq_residual m' b' [0, 1, 3] [1, 2, 2]))"
proof -
  have h: "length [0, 1, 3 :: real] = length [1, 2, 2 :: real]" "2 \<le> length [0, 1, 3 :: real]"
    by simp_all
  from fit_line_least_squares[OF lstsq_exact_contract h]
  show ?thesis by blast
qed

end
